theory Spec2Isabelle
  imports Main "HOL-Library.AList"
begin

section \<open>Data model of \<open>src/server.js\<close>\<close>

text \<open>
  The two sides of a session are the string keys \<open>'p1'\<close> and \<open>'p2'\<close>; the phase is one of
  the strings \<open>'placement'\<close>, \<open>'battle'\<close>, \<open>'finished'\<close>; a recorded outcome
  (\<open>resultType\<close>) is one of \<open>'miss'\<close>, \<open>'hit'\<close>, \<open>'sunk'\<close>.
\<close>

datatype slot = P1 | P2

datatype phase = Placement | Battle | Finished

datatype outcome = Miss | Hit | Sunk

text \<open>
  A cell is the pair \<open>[row, col]\<close>. A board is an array of rows of cell values; a cell value
  is an integer, \<open>0\<close> being the empty (falsy) cell and any other value the id of the ship
  lying there. The ship layout \<open>ships\<close> maps a ship id to the list of its cells.
\<close>

type_synonym cell = "int \<times> int"

type_synonym board = "int list list"

type_synonym layout = "int \<rightharpoonup> cell list"

text \<open>
  The Shot Record \<open>shotsFired\<close> is a JavaScript object keyed by \<open>r + ',' + c\<close>. The key
  string determines the integer pair, so the record is an association list on cells in
  insertion order: assignment to a present key overwrites in place, assignment to a new
  key appends (\<open>AList.update\<close>), and \<open>Object.values\<close> is \<open>map snd\<close>.
\<close>

type_synonym shots = "(cell \<times> outcome) list"

text \<open>
  A log entry is \<open>{ type, text }\<close>. The texts are fixed templates around the shooter's
  name and the coordinate label \<open>cols[c] + (r + 1)\<close>; the label keeps the column as its
  index into the ten-letter alphabet (\<open>None\<close> where \<open>cols[c]\<close> is undefined).
\<close>

datatype log_type = System | Shot_type outcome

type_synonym coord = "nat option \<times> int"

datatype log_text =
    Battle_started
  | Sunk_text string coord
  | Hit_text string coord
  | Miss_text string coord
  | Victory_text string

record log_entry =
  ltype :: log_type
  ltext :: log_text

record side =
  sid :: string
  name :: string
  board :: "board option"
  ships :: "layout option"
  ready :: bool
  shotsFired :: shots

record game =
  gid :: string
  p1 :: side
  p2 :: side
  turn :: slot
  phase :: phase
  winner :: "slot option"
  log :: "log_entry list"
  totalCells :: nat

text \<open>The payload of the \<open>shot_result\<close> broadcast.\<close>

record shot_result =
  shooter :: slot
  res_r :: int
  res_c :: int
  resultType :: outcome
  affectedCells :: "cell list"
  res_turn :: slot
  res_phase :: phase
  res_winner :: "slot option"
  res_log :: "log_entry list"

datatype message =
    Waiting nat
  | Game_found string string string
  | You_are_ready
  | Waiting_for_opponent_ready
  | Battle_start slot "log_entry list"
  | Not_your_turn
  | Shot_result shot_result
  | Opponent_disconnected

text \<open>
  \<open>socket.emit\<close> reaches one connection, \<open>io.to(room).emit\<close> every connection of the
  room, \<open>socket.to(room).emit\<close> every connection of the room but the sender.
\<close>

datatype emit =
    To_socket string message
  | To_room string message
  | To_room_except string string message

datatype js_error = TypeError

text \<open>
  The entry of the waiting slot, \<open>{ id, socket, name }\<close>; the socket is the connection
  with that id.
\<close>

record participant =
  pid :: string
  pname :: string

text \<open>
  The properties the handlers put on a socket: \<open>playerName\<close>, and \<open>gameId\<close> with
  \<open>slot\<close>, which \<open>createGame\<close> always writes together.
\<close>

record sock =
  playerName :: "string option"
  bound :: "(string \<times> slot) option"

text \<open>
  The process state: \<open>waitingPlayer\<close>, the registry \<open>games\<close>, the sockets by connection
  id, and the \<open>setTimeout\<close> calls made so far as (delay in milliseconds, game id).
\<close>

record server =
  waitingPlayer :: "participant option"
  games :: "string \<rightharpoonup> game"
  sockets :: "string \<Rightarrow> sock"
  timers :: "(int \<times> string) list"

section \<open>Operations\<close>

definition opponent :: "slot \<Rightarrow> slot" where
  "opponent s = (if s = P1 then P2 else P1)"

fun side_of :: "game \<Rightarrow> slot \<Rightarrow> side" where
  "side_of g P1 = p1 g"
| "side_of g P2 = p2 g"

fun set_side :: "game \<Rightarrow> slot \<Rightarrow> side \<Rightarrow> game" where
  "set_side g P1 x = g\<lparr>p1 := x\<rparr>"
| "set_side g P2 x = g\<lparr>p2 := x\<rparr>"

definition new_side :: "participant \<Rightarrow> side" where
  "new_side p = \<lparr>sid = pid p, name = pname p, board = None, ships = None,
                 ready = False, shotsFired = []\<rparr>"

definition game_id :: "participant \<Rightarrow> participant \<Rightarrow> string" where
  "game_id a b = pid a @ ''_'' @ pid b"

definition new_game :: "participant \<Rightarrow> participant \<Rightarrow> game" where
  "new_game a b = \<lparr>gid = game_id a b, p1 = new_side a, p2 = new_side b, turn = P1,
                   phase = Placement, winner = None, log = [], totalCells = 20\<rparr>"

definition bind_socket :: "string \<Rightarrow> string \<Rightarrow> slot \<Rightarrow> (string \<Rightarrow> sock) \<Rightarrow> (string \<Rightarrow> sock)" where
  "bind_socket i g sl ss = ss(i := (ss i)\<lparr>bound := Some (g, sl)\<rparr>)"

text \<open>\<open>createGame(p1, p2)\<close>, lines 18-44.\<close>

definition createGame :: "server \<Rightarrow> participant \<Rightarrow> participant \<Rightarrow> server \<times> emit list" where
  "createGame s a b =
     (let gameId = game_id a b in
      (s\<lparr>games := (games s)(gameId \<mapsto> new_game a b),
         sockets := bind_socket (pid b) gameId P2 (bind_socket (pid a) gameId P1 (sockets s))\<rparr>,
       [To_room gameId (Game_found gameId (pname a) (pname b))]))"

text \<open>The handler of \<open>join_queue\<close>, lines 50-67, on the socket with id \<open>i\<close>.\<close>

definition join_queue :: "server \<Rightarrow> string \<Rightarrow> string \<Rightarrow> server \<times> emit list" where
  "join_queue s i nm =
     (let s0 = s\<lparr>sockets := (sockets s)(i := (sockets s i)\<lparr>playerName := Some nm\<rparr>)\<rparr>;
          wait = (s0\<lparr>waitingPlayer := Some \<lparr>pid = i, pname = nm\<rparr>\<rparr>, [To_socket i (Waiting 1)])
      in case waitingPlayer s0 of
           None \<Rightarrow> wait
         | Some w \<Rightarrow>
             if pid w \<noteq> i
             then createGame (s0\<lparr>waitingPlayer := None\<rparr>) w \<lparr>pid = i, pname = nm\<rparr>
             else wait)"

text \<open>
  The body of the \<open>player_ready\<close> handler on the session, lines 75-93: the new session,
  and whether the battle starts.
\<close>

definition ready_game :: "game \<Rightarrow> slot \<Rightarrow> board \<Rightarrow> layout \<Rightarrow> game \<times> bool" where
  "ready_game g sl b sh =
     (let g1 = set_side g sl ((side_of g sl)\<lparr>board := Some b, ships := Some sh, ready := True\<rparr>);
          opponentSlot = opponent sl
      in if ready (side_of g1 opponentSlot)
         then (g1\<lparr>phase := Battle,
                  log := log g1 @ [\<lparr>ltype = System, ltext = Battle_started\<rparr>]\<rparr>, True)
         else (g1, False))"

text \<open>The handler of \<open>player_ready\<close>, lines 70-94.\<close>

definition player_ready :: "server \<Rightarrow> string \<Rightarrow> board \<Rightarrow> layout \<Rightarrow> server \<times> emit list" where
  "player_ready s i b sh =
     (case bound (sockets s i) of
        None \<Rightarrow> (s, [])
      | Some (gameId, sl) \<Rightarrow>
          (case games s gameId of
             None \<Rightarrow> (s, [])
           | Some g \<Rightarrow>
               (case ready_game g sl b sh of
                  (g', started) \<Rightarrow>
                    (s\<lparr>games := (games s)(gameId \<mapsto> g')\<rparr>,
                     To_socket i You_are_ready #
                     (if started then [To_room gameId (Battle_start (turn g') (log g'))]
                      else [To_socket i Waiting_for_opponent_ready])))))"

text \<open>
  \<open>opponentBoard[r][c]\<close>, line 116. Reading a property of \<open>null\<close> or \<open>undefined\<close> throws a
  TypeError: so it does when the board is still \<open>null\<close> and when \<open>opponentBoard[r]\<close> is
  undefined, that is when \<open>r\<close> is not an index of the array. With a row in hand, a column
  outside it reads \<open>undefined\<close> (\<open>None\<close>).
\<close>

fun read_cell :: "board option \<Rightarrow> int \<Rightarrow> int \<Rightarrow> js_error + int option" where
  "read_cell None r c = Inl TypeError"
| "read_cell (Some b) r c =
     (if 0 \<le> r \<and> r < int (length b)
      then (let row = b ! nat r
            in if 0 \<le> c \<and> c < int (length row) then Inr (Some (row ! nat c)) else Inr None)
      else Inl TypeError)"

text \<open>\<open>!!cellValue\<close>: \<open>undefined\<close> and \<open>0\<close> are falsy.\<close>

fun truthy :: "int option \<Rightarrow> bool" where
  "truthy None = False"
| "truthy (Some v) = (v \<noteq> 0)"

text \<open>\<open>game[slot].shotsFired[key]\<close> as a condition: every recorded outcome is a non-empty string.\<close>

definition fired :: "shots \<Rightarrow> cell \<Rightarrow> bool" where
  "fired sh k = (map_of sh k \<noteq> None)"

text \<open>\<open>opponentShips[shipId]\<close> followed by \<open>.filter\<close>, lines 128-129: the lookup on a
  \<open>null\<close> layout and the method call on a missing ship throw.\<close>

fun ship_cells :: "layout option \<Rightarrow> int \<Rightarrow> js_error + cell list" where
  "ship_cells None v = Inl TypeError"
| "ship_cells (Some sh) v = (case sh v of None \<Rightarrow> Inl TypeError | Some cs \<Rightarrow> Inr cs)"

definition prevHits :: "shots \<Rightarrow> cell list \<Rightarrow> nat" where
  "prevHits sh shipCells = length (filter (fired sh) shipCells)"

definition coord_label :: "int \<Rightarrow> int \<Rightarrow> coord" where
  "coord_label r c = (if 0 \<le> c \<and> c < 10 then Some (nat c) else None, r + 1)"

text \<open>Lines 121-141: the result type, the affected cells and the log text. A truthy
  \<open>cellValue\<close> is a number other than \<open>0\<close>, the \<open>shipId\<close>.\<close>

definition resolve ::
    "game \<Rightarrow> slot \<Rightarrow> int \<Rightarrow> int \<Rightarrow> js_error + (outcome \<times> cell list \<times> log_text)" where
  "resolve g sl r c =
     (let opponentSlot = opponent sl;
          coord = coord_label r c;
          shooterName = name (side_of g sl)
      in case read_cell (board (side_of g opponentSlot)) r c of
           Inl e \<Rightarrow> Inl e
         | Inr cellValue \<Rightarrow>
             if truthy cellValue
             then (case ship_cells (ships (side_of g opponentSlot)) (the cellValue) of
                     Inl e \<Rightarrow> Inl e
                   | Inr shipCells \<Rightarrow>
                       if prevHits (shotsFired (side_of g sl)) shipCells + 1 \<ge> length shipCells
                       then Inr (Sunk, shipCells, Sunk_text shooterName coord)
                       else Inr (Hit, [(r, c)], Hit_text shooterName coord))
             else Inr (Miss, [(r, c)], Miss_text shooterName coord))"

text \<open>Lines 144-146: \<open>affectedCells.forEach\<close>.\<close>

definition record_shots :: "shots \<Rightarrow> cell list \<Rightarrow> outcome \<Rightarrow> shots" where
  "record_shots sh cells res = foldl (\<lambda>acc k. AList.update k res acc) sh cells"

text \<open>\<open>xs.slice(-n)\<close>: the last \<open>n\<close> elements, all of them when there are fewer.\<close>

definition slice_last :: "nat \<Rightarrow> 'a list \<Rightarrow> 'a list" where
  "slice_last n xs = drop (length xs - n) xs"

text \<open>Line 155: the number of recorded outcomes that are \<open>'hit'\<close> or \<open>'sunk'\<close>.\<close>

definition totalHits :: "shots \<Rightarrow> nat" where
  "totalHits sh = length (filter (\<lambda>v. v = Hit \<or> v = Sunk) (map snd sh))"

text \<open>What the \<open>fire\<close> handler does with a session: return without a trace, answer
  \<open>not_your_turn\<close>, or resolve the shot into a new session and a broadcast.\<close>

datatype fire_reply = Dropped | Rejected | Shot game shot_result

text \<open>The \<open>fire\<close> handler on the session, lines 102-172.\<close>

definition fire_game :: "game \<Rightarrow> slot \<Rightarrow> int \<Rightarrow> int \<Rightarrow> js_error + fire_reply" where
  "fire_game g sl r c =
     (if phase g \<noteq> Battle then Inr Dropped
      else if turn g \<noteq> sl then Inr Rejected
      else if fired (shotsFired (side_of g sl)) (r, c) then Inr Dropped
      else case resolve g sl r c of
             Inl e \<Rightarrow> Inl e
           | Inr (res, cells, logText) \<Rightarrow>
               (let me = side_of g sl;
                    g1 = set_side g sl (me\<lparr>shotsFired := record_shots (shotsFired me) cells res\<rparr>);
                    l2 = log g1 @ [\<lparr>ltype = Shot_type res, ltext = logText\<rparr>];
                    g2 = g1\<lparr>log := (if length l2 > 50 then slice_last 50 l2 else l2)\<rparr>;
                    g3 = (if res = Miss then g2\<lparr>turn := opponent sl\<rparr> else g2);
                    g4 = (if totalHits (shotsFired (side_of g3 sl)) \<ge> totalCells g3
                          then g3\<lparr>phase := Finished, winner := Some sl,
                                  log := log g3 @ [\<lparr>ltype = System,
                                                    ltext = Victory_text (name (side_of g3 sl))\<rparr>]\<rparr>
                          else g3)
                in Inr (Shot g4
                     \<lparr>shooter = sl, res_r = r, res_c = c, resultType = res, affectedCells = cells,
                      res_turn = turn g4, res_phase = phase g4, res_winner = winner g4,
                      res_log = slice_last 10 (log g4)\<rparr>)))"

text \<open>The handler of \<open>fire\<close>, lines 97-173. A thrown error leaves the state as it was:
  nothing has been written before lines 116 and 128.\<close>

definition fire :: "server \<Rightarrow> string \<Rightarrow> int \<Rightarrow> int \<Rightarrow> js_error + (server \<times> emit list)" where
  "fire s i r c =
     (case bound (sockets s i) of
        None \<Rightarrow> Inr (s, [])
      | Some (gameId, sl) \<Rightarrow>
          (case games s gameId of
             None \<Rightarrow> Inr (s, [])
           | Some g \<Rightarrow>
               (case fire_game g sl r c of
                  Inl e \<Rightarrow> Inl e
                | Inr Dropped \<Rightarrow> Inr (s, [])
                | Inr Rejected \<Rightarrow> Inr (s, [To_socket i Not_your_turn])
                | Inr (Shot g' res) \<Rightarrow>
                    Inr (s\<lparr>games := (games s)(gameId \<mapsto> g')\<rparr>,
                         [To_room gameId (Shot_result res)]))))"

text \<open>The handler of \<open>disconnect\<close>, lines 176-195.\<close>

definition disconnect :: "server \<Rightarrow> string \<Rightarrow> server \<times> emit list" where
  "disconnect s i =
     (let s1 = (case waitingPlayer s of
                  None \<Rightarrow> s
                | Some w \<Rightarrow> if pid w = i then s\<lparr>waitingPlayer := None\<rparr> else s)
      in case bound (sockets s1 i) of
           None \<Rightarrow> (s1, [])
         | Some (gameId, sl) \<Rightarrow>
             (case games s1 gameId of
                None \<Rightarrow> (s1, [])
              | Some g \<Rightarrow>
                  (let (s2, out) =
                         (if phase g \<noteq> Finished
                          then (s1\<lparr>games := (games s1)(gameId \<mapsto> g\<lparr>phase := Finished\<rparr>)\<rparr>,
                                [To_room_except i gameId Opponent_disconnected])
                          else (s1, []))
                   in (s2\<lparr>timers := timers s2 @ [(60000, gameId)]\<rparr>, out))))"

text \<open>The callback of the timer, line 193: \<open>delete games[gameId]\<close>.\<close>

definition timeout :: "server \<Rightarrow> string \<Rightarrow> server" where
  "timeout s gameId = s\<lparr>games := (games s)(gameId := None)\<rparr>"

text \<open>The inbound events, each with the id of the connection it arrives on, and the
  expiry of a cleanup timer.\<close>

datatype event =
    Join_queue string string
  | Player_ready string board layout
  | Fire string int int
  | Disconnect string
  | Timeout string

fun step :: "server \<Rightarrow> event \<Rightarrow> js_error + (server \<times> emit list)" where
  "step s (Join_queue i nm) = Inr (join_queue s i nm)"
| "step s (Player_ready i b sh) = Inr (player_ready s i b sh)"
| "step s (Fire i r c) = fire s i r c"
| "step s (Disconnect i) = Inr (disconnect s i)"
| "step s (Timeout gameId) = Inr (timeout s gameId, [])"

text \<open>A run handles the events one at a time and ends at the first thrown error.\<close>

fun run :: "server \<Rightarrow> event list \<Rightarrow> js_error + server" where
  "run s [] = Inr s"
| "run s (e # es) = (case step s e of Inl err \<Rightarrow> Inl err | Inr (s', out) \<Rightarrow> run s' es)"

definition init :: server where
  "init = \<lparr>waitingPlayer = None, games = Map.empty,
           sockets = (\<lambda>i. \<lparr>playerName = None, bound = None\<rparr>), timers = []\<rparr>"

section \<open>Concrete sessions\<close>

text \<open>
  Two connections \<open>a\<close> and \<open>b\<close>, and a fleet of twenty one-cell ships with the ids
  \<open>1\<close> to \<open>20\<close> on rows \<open>0\<close> and \<open>1\<close> of a ten by ten board.
\<close>

definition alice :: participant where
  "alice = \<lparr>pid = ''a'', pname = ''A''\<rparr>"

definition bob :: participant where
  "bob = \<lparr>pid = ''b'', pname = ''B''\<rparr>"

definition fleet_board :: board where
  "fleet_board = [map int [1..<11], map int [11..<21]] @ replicate 8 (replicate 10 0)"

definition fleet_ships :: layout where
  "fleet_ships = (\<lambda>v. if 1 \<le> v \<and> v \<le> 20 then Some [((v - 1) div 10, (v - 1) mod 10)] else None)"

text \<open>A two-cell ship on a board of two rows and two columns.\<close>

definition pair_board :: board where
  "pair_board = [[1, 1], [0, 0]]"

definition pair_ships :: layout where
  "pair_ships = [1 \<mapsto> [(0, 0), (0, 1)]]"

text \<open>Both connections join the queue and submit the fleet.\<close>

definition start_events :: "event list" where
  "start_events = [Join_queue ''a'' ''A'', Join_queue ''b'' ''B'',
              Player_ready ''a'' fleet_board fleet_ships,
              Player_ready ''b'' fleet_board fleet_ships]"

text \<open>\<open>a\<close> fires at each of the twenty ship cells of \<open>b\<close>.\<close>

definition twenty_hits :: "event list" where
  "twenty_hits = map (\<lambda>k. Fire ''a'' (int k div 10) (int k mod 10)) [0..<20]"

text \<open>\<open>a\<close> and \<open>b\<close> take turns at fifteen empty cells each.\<close>

definition thirty_misses :: "event list" where
  "thirty_misses =
     concat (map (\<lambda>k. [Fire ''a'' (2 + int k div 10) (int k mod 10),
                        Fire ''b'' (2 + int k div 10) (int k mod 10)]) [0..<15])"

definition state_after :: "event list \<Rightarrow> server" where
  "state_after evs = (case run init evs of Inl e \<Rightarrow> init | Inr s \<Rightarrow> s)"

definition session_after :: "event list \<Rightarrow> game option" where
  "session_after evs = (case run init evs of Inl e \<Rightarrow> None | Inr s \<Rightarrow> games s ''a_b'')"

definition phase_after :: "event list \<Rightarrow> phase option" where
  "phase_after evs = map_option phase (session_after evs)"

definition log_length_after :: "event list \<Rightarrow> nat option" where
  "log_length_after evs = map_option (length \<circ> log) (session_after evs)"

definition timers_after :: "event list \<Rightarrow> (int \<times> string) list option" where
  "timers_after evs = (case run init evs of Inl e \<Rightarrow> None | Inr s \<Rightarrow> Some (timers s))"

definition error_after :: "event list \<Rightarrow> js_error option" where
  "error_after evs = (case run init evs of Inl e \<Rightarrow> Some e | Inr s \<Rightarrow> None)"

text \<open>The session of \<open>a\<close> and \<open>b\<close> once both sides have submitted the same board and layout.\<close>

definition battle_of :: "board \<Rightarrow> layout \<Rightarrow> game" where
  "battle_of b sh = fst (ready_game (fst (ready_game (new_game alice bob) P1 b sh)) P2 b sh)"

text \<open>A sequence of fire requests on a session; a request that is not resolved leaves it as it is.\<close>

fun fire_all :: "game \<Rightarrow> (slot \<times> int \<times> int) list \<Rightarrow> game" where
  "fire_all g [] = g"
| "fire_all g ((sl, r, c) # xs) =
     (case fire_game g sl r c of
        Inr (Shot g' res) \<Rightarrow> fire_all g' xs
      | _ \<Rightarrow> fire_all g xs)"

text \<open>The first side fires at the first \<open>n\<close> ship cells of the fleet.\<close>

definition first_hits :: "nat \<Rightarrow> (slot \<times> int \<times> int) list" where
  "first_hits n = map (\<lambda>k. (P1, int k div 10, int k mod 10)) [0..<n]"

fun shot_of :: "js_error + fire_reply \<Rightarrow> (game \<times> shot_result) option" where
  "shot_of (Inr (Shot g res)) = Some (g, res)"
| "shot_of _ = None"

definition shot_type :: "js_error + fire_reply \<Rightarrow> outcome option" where
  "shot_type x = map_option (resultType \<circ> snd) (shot_of x)"

definition shot_turn :: "js_error + fire_reply \<Rightarrow> slot option" where
  "shot_turn x = map_option (turn \<circ> fst) (shot_of x)"

definition shot_phase :: "js_error + fire_reply \<Rightarrow> phase option" where
  "shot_phase x = map_option (phase \<circ> fst) (shot_of x)"

definition shot_winner :: "js_error + fire_reply \<Rightarrow> slot option option" where
  "shot_winner x = map_option (winner \<circ> fst) (shot_of x)"

definition shot_record :: "slot \<Rightarrow> js_error + fire_reply \<Rightarrow> shots option" where
  "shot_record sl x = map_option (shotsFired \<circ> (\<lambda>g. side_of g sl) \<circ> fst) (shot_of x)"

section \<open>Sessions and sides\<close>

lemma side_of_set_side_same: "side_of (set_side g sl x) sl = x"
  by (cases sl) simp_all

lemma side_of_set_side_opponent: "side_of (set_side g sl x) (opponent sl) = side_of g (opponent sl)"
  by (cases sl) (simp_all add: opponent_def)

lemma set_side_fields:
  "turn (set_side g sl x) = turn g" "phase (set_side g sl x) = phase g"
  "winner (set_side g sl x) = winner g" "log (set_side g sl x) = log g"
  "totalCells (set_side g sl x) = totalCells g" "gid (set_side g sl x) = gid g"
  by (cases sl; simp)+

lemma side_of_other_fields:
  "side_of (g\<lparr>turn := t\<rparr>) sl = side_of g sl" "side_of (g\<lparr>phase := p\<rparr>) sl = side_of g sl"
  "side_of (g\<lparr>winner := w\<rparr>) sl = side_of g sl" "side_of (g\<lparr>log := l\<rparr>) sl = side_of g sl"
  by (cases sl; simp)+

lemmas game_simps = side_of_set_side_same side_of_set_side_opponent set_side_fields side_of_other_fields

lemma fire_game_Shot:
  assumes "fire_game g sl r c = Inr (Shot g' res)"
  obtains out cells msg where
    "phase g = Battle" and "turn g = sl" and "\<not> fired (shotsFired (side_of g sl)) (r, c)"
    and "resolve g sl r c = Inr (out, cells, msg)"
    and "resultType res = out" and "affectedCells res = cells"
    and "shotsFired (side_of g' sl) = record_shots (shotsFired (side_of g sl)) cells out"
    and "side_of g' (opponent sl) = side_of g (opponent sl)"
    and "turn g' = (if out = Miss then opponent sl else sl)"
    and "totalCells g' = totalCells g"
    and "phase g' = (if totalCells g \<le> totalHits (shotsFired (side_of g' sl)) then Finished else Battle)"
    and "winner g' = (if totalCells g \<le> totalHits (shotsFired (side_of g' sl)) then Some sl else winner g)"
  using assms unfolding fire_game_def
  by (auto simp: Let_def game_simps split: if_splits sum.splits prod.splits)

lemma map_of_record_shots:
  "map_of (record_shots sh cells res) k = (if k \<in> set cells then Some res else map_of sh k)"
  unfolding record_shots_def
  by (induction cells arbitrary: sh) (auto simp: update_conv')

lemma record_shots_single: "\<not> fired sh k \<Longrightarrow> record_shots sh [k] res = sh @ [(k, res)]"
  unfolding record_shots_def fired_def
  by (induction sh) (auto split: if_splits)

lemma resolve_not_Sunk:
  assumes "resolve g sl r c = Inr (out, cells, msg)" and "out \<noteq> Sunk"
  shows "cells = [(r, c)]"
  using assms unfolding resolve_def
  by (auto simp: Let_def split: sum.splits if_splits)

lemma resolve_ship:
  assumes "read_cell (board (side_of g (opponent sl))) r c = Inr (Some v)" and "v \<noteq> 0"
      and "resolve g sl r c = Inr (out, cells, msg)"
  obtains shipCells where "ship_cells (ships (side_of g (opponent sl))) v = Inr shipCells"
      and "out = (if length shipCells \<le> prevHits (shotsFired (side_of g sl)) shipCells + 1 then Sunk else Hit)"
      and "cells = (if out = Sunk then shipCells else [(r, c)])"
  using assms unfolding resolve_def
  by (auto simp: Let_def split: sum.splits if_splits)


section \<open>The Shot Record\<close>

lemma update_absent: "map_of sh k = None \<Longrightarrow> AList.update k v sh = sh @ [(k, v)]"
  by (induction sh) (auto split: if_splits)

lemma update_present_keys: "map_of sh k = Some v \<Longrightarrow> map fst (AList.update k w sh) = map fst sh"
  by (induction sh) (auto split: if_splits)

lemma totalHits_append: "totalHits (sh @ [(k, v)]) = totalHits sh + (if v = Miss then 0 else 1)"
  by (cases v) (simp_all add: totalHits_def)

lemma totalHits_update_present:
  "map_of sh k = Some v \<Longrightarrow> v \<noteq> Miss \<Longrightarrow> totalHits (AList.update k Sunk sh) = totalHits sh"
  by (cases v; induction sh) (auto simp: totalHits_def split: if_splits)

lemma totalHits_update_Sunk_mono: "totalHits sh \<le> totalHits (AList.update k Sunk sh)"
  by (induction sh) (auto simp: totalHits_def)

lemma totalHits_record_Sunk_mono: "totalHits sh \<le> totalHits (record_shots sh cells Sunk)"
  unfolding record_shots_def
proof (induction cells arbitrary: sh)
  case Nil
  show ?case by simp
next
  case (Cons k cells)
  have "totalHits sh \<le> totalHits (AList.update k Sunk sh)" by (rule totalHits_update_Sunk_mono)
  also have "\<dots> \<le> totalHits (foldl (\<lambda>acc k. AList.update k Sunk acc) (AList.update k Sunk sh) cells)"
    by (rule Cons.IH)
  finally show ?case by simp
qed

lemma record_shots_all_present:
  assumes "\<forall>k\<in>set cells. \<exists>v. map_of sh k = Some v \<and> v \<noteq> Miss"
  shows "map fst (record_shots sh cells Sunk) = map fst sh \<and>
         totalHits (record_shots sh cells Sunk) = totalHits sh"
  using assms unfolding record_shots_def
proof (induction cells arbitrary: sh)
  case Nil
  show ?case by simp
next
  case (Cons k cells)
  from Cons.prems obtain v where v: "map_of sh k = Some v" "v \<noteq> Miss" by auto
  let ?sh = "AList.update k Sunk sh"
  have "\<forall>k'\<in>set cells. \<exists>v. map_of ?sh k' = Some v \<and> v \<noteq> Miss"
    using Cons.prems by (auto simp: update_conv')
  from Cons.IH [OF this] show ?case
    using v by (simp add: update_present_keys totalHits_update_present)
qed

lemma record_shots_sunk_new:
  assumes "x \<in> set cells" and "map_of sh x = None"
      and "\<forall>k\<in>set cells. k \<noteq> x \<longrightarrow> (\<exists>v. map_of sh k = Some v \<and> v \<noteq> Miss)"
  shows "map fst (record_shots sh cells Sunk) = map fst sh @ [x] \<and>
         totalHits (record_shots sh cells Sunk) = totalHits sh + 1"
  using assms
proof (induction cells arbitrary: sh)
  case Nil
  then show ?case by simp
next
  case (Cons k cells)
  let ?sh = "AList.update k Sunk sh"
  have step: "record_shots sh (k # cells) Sunk = record_shots ?sh cells Sunk"
    by (simp add: record_shots_def)
  show ?case
  proof (cases "k = x")
    case True
    have sh: "?sh = sh @ [(x, Sunk)]" using True Cons.prems(2) by (simp add: update_absent)
    have "\<forall>k'\<in>set cells. \<exists>v. map_of ?sh k' = Some v \<and> v \<noteq> Miss"
      using Cons.prems(3) True by (auto simp: update_conv')
    from record_shots_all_present [OF this] show ?thesis
      unfolding step by (simp add: sh totalHits_append)
  next
    case False
    with Cons.prems obtain v where v: "map_of sh k = Some v" "v \<noteq> Miss" by auto
    have "x \<in> set cells" using False Cons.prems(1) by auto
    moreover have "map_of ?sh x = None" using False Cons.prems(2) by (simp add: update_conv')
    moreover have "\<forall>k'\<in>set cells. k' \<noteq> x \<longrightarrow> (\<exists>v. map_of ?sh k' = Some v \<and> v \<noteq> Miss)"
      using Cons.prems(3) by (auto simp: update_conv')
    ultimately have "map fst (record_shots ?sh cells Sunk) = map fst ?sh @ [x] \<and>
         totalHits (record_shots ?sh cells Sunk) = totalHits ?sh + 1"
      by (rule Cons.IH)
    then show ?thesis
      unfolding step using v by (simp add: update_present_keys totalHits_update_present)
  qed
qed

lemma resolve_Sunk_condition:
  assumes "resolve g sl r c = Inr (Sunk, cells, msg)"
  shows "length cells \<le> prevHits (shotsFired (side_of g sl)) cells + 1"
  using assms unfolding resolve_def
  by (auto simp: Let_def split: sum.splits if_splits)

lemma prevHits_all_others:
  assumes "x \<in> set cells" and "\<not> fired sh x" and "length cells \<le> prevHits sh cells + 1"
  shows "\<forall>k\<in>set cells. k \<noteq> x \<longrightarrow> fired sh k"
proof -
  have "prevHits sh cells + length (filter (\<lambda>k. \<not> fired sh k) cells) = length cells"
    unfolding prevHits_def by (rule sum_length_filter_compl)
  with assms(3) have le: "length (filter (\<lambda>k. \<not> fired sh k) cells) \<le> 1" by simp
  show ?thesis
  proof (intro ballI impI, rule ccontr)
    fix k assume k: "k \<in> set cells" "k \<noteq> x" "\<not> fired sh k"
    have "{x, k} \<subseteq> set (filter (\<lambda>k. \<not> fired sh k) cells)" using assms(1,2) k by simp
    then have "card {x, k} \<le> card (set (filter (\<lambda>k. \<not> fired sh k) cells))"
      by (intro card_mono) simp_all
    also have "\<dots> \<le> length (filter (\<lambda>k. \<not> fired sh k) cells)" by (rule card_length)
    finally show False using le k(2) by simp
  qed
qed

lemma shot_ofE:
  assumes "shot_of x \<noteq> None"
  obtains g' res where "x = Inr (Shot g' res)"
  using assms by (cases x rule: shot_of.cases) auto

section \<open>Invariants of the run\<close>

lemma ready_game_totalCells: "ready_game g sl b sh = (g', started) \<Longrightarrow> totalCells g' = totalCells g"
  by (auto simp: ready_game_def Let_def game_simps split: if_splits)

lemma fire_game_totalCells: "fire_game g sl r c = Inr (Shot g' res) \<Longrightarrow> totalCells g' = totalCells g"
  by (erule fire_game_Shot)

lemma step_totalCells:
  assumes "step s e = Inr (s', out)"
      and "\<forall>k g. games s k = Some g \<longrightarrow> totalCells g = 20"
  shows "\<forall>k g. games s' k = Some g \<longrightarrow> totalCells g = 20"
proof (cases e)
  case (Join_queue i nm)
  with assms show ?thesis
    by (auto simp: join_queue_def createGame_def new_game_def Let_def
          split: option.splits if_splits)
next
  case (Player_ready i b sh)
  with assms show ?thesis
    by (fastforce simp: player_ready_def split: option.splits prod.splits if_splits
          dest: ready_game_totalCells)
next
  case (Fire i r c)
  with assms show ?thesis
    by (fastforce simp: fire_def split: option.splits sum.splits fire_reply.splits if_splits
          dest: fire_game_totalCells)
next
  case (Disconnect i)
  with assms show ?thesis
    by (auto simp: disconnect_def Let_def split: option.splits if_splits)
next
  case (Timeout k)
  with assms show ?thesis by (auto simp: timeout_def split: if_splits)
qed

lemma run_totalCells:
  assumes "run s evs = Inr s'"
      and "\<forall>k g. games s k = Some g \<longrightarrow> totalCells g = 20"
  shows "\<forall>k g. games s' k = Some g \<longrightarrow> totalCells g = 20"
  using assms
proof (induction evs arbitrary: s)
  case Nil
  then show ?case by simp
next
  case (Cons e evs)
  from Cons.prems(1) obtain s1 out where st: "step s e = Inr (s1, out)" and r: "run s1 evs = Inr s'"
    by (auto split: sum.splits)
  from st Cons.prems(2) have "\<forall>k g. games s1 k = Some g \<longrightarrow> totalCells g = 20"
    by (rule step_totalCells)
  with r show ?case by (rule Cons.IH)
qed

lemma reachable_totalCells: "run init evs = Inr s \<Longrightarrow> games s k = Some g \<Longrightarrow> totalCells g = 20"
  using run_totalCells [of init evs s] by (simp add: init_def)

lemma fire_game_row_outside:
  assumes "phase g = Battle" and "turn g = sl" and "\<not> fired (shotsFired (side_of g sl)) (r, c)"
      and "board (side_of g (opponent sl)) = Some b" and "r < 0 \<or> int (length b) \<le> r"
  shows "fire_game g sl r c = Inl TypeError"
  using assms by (auto simp: fire_game_def resolve_def Let_def)

lemma fire_game_log_bound:
  assumes "fire_game g sl r c = Inr (Shot g' res)"
  shows "length (log g') \<le> 51" and "phase g' \<noteq> Finished \<Longrightarrow> length (log g') \<le> 50"
  using assms unfolding fire_game_def
  by (auto simp: Let_def game_simps slice_last_def split: if_splits sum.splits prod.splits)

section \<open>Shot resolution\<close>

text \<open>
  C1. In a session in phase \<open>battle\<close>, when the side whose turn it is fires at a
  coordinate it has not fired at and the shot is resolved, \<open>turn\<close> is unchanged on a
  hit and on a sunk, and it is the opposite side exactly when the result is a miss.
\<close>
theorem fire_turn_switch:
  assumes "phase g = Battle" and "turn g = sl"
      and "map_of (shotsFired (side_of g sl)) (r, c) = None"
      and "fire_game g sl r c = Inr (Shot g' res)"
  shows "(resultType res = Hit \<or> resultType res = Sunk \<longrightarrow> turn g' = turn g) \<and>
         (turn g' = opponent (turn g) \<longleftrightarrow> resultType res = Miss)"
proof -
  from assms(4) obtain out where "resultType res = out"
      and t: "turn g' = (if out = Miss then opponent sl else sl)"
    by (rule fire_game_Shot)
  moreover have "opponent sl \<noteq> sl" by (simp add: opponent_def)
  ultimately show ?thesis using assms(2) by (cases out) auto
qed

text \<open>
  C1, at a concrete input: in the battle of the two fleets the first side fires at the
  empty cell \<open>(2, 0)\<close>; the result is a miss and the turn passes to the second side.
\<close>

theorem fire_turn_switch_witness:
  "phase (battle_of fleet_board fleet_ships) = Battle \<and>
   turn (battle_of fleet_board fleet_ships) = P1 \<and>
   map_of (shotsFired (side_of (battle_of fleet_board fleet_ships) P1)) (2, 0) = None \<and>
   shot_type (fire_game (battle_of fleet_board fleet_ships) P1 2 0) = Some Miss \<and>
   shot_turn (fire_game (battle_of fleet_board fleet_ships) P1 2 0) = Some P2"
proof -
  let ?g = "battle_of fleet_board fleet_ships"
  have a: "phase ?g = Battle" by code_simp
  have b: "turn ?g = P1" by code_simp
  have c: "map_of (shotsFired (side_of ?g P1)) (2, 0) = None" by code_simp
  have t: "shot_type (fire_game ?g P1 2 0) = Some Miss" by code_simp
  then have "shot_of (fire_game ?g P1 2 0) \<noteq> None" by (auto simp: shot_type_def)
  then obtain g' res where d: "fire_game ?g P1 2 0 = Inr (Shot g' res)" by (rule shot_ofE)
  with t have m: "resultType res = Miss" by (simp add: shot_type_def)
  from fire_turn_switch [OF a b c d] m have "turn g' = opponent (turn ?g)" by simp
  with b d have "shot_turn (fire_game ?g P1 2 0) = Some P2"
    by (simp add: shot_turn_def opponent_def)
  with a b c t show ?thesis by simp
qed

text \<open>
  C2. A resolved shot that strikes a ship cell (the opponent's board holds the non-zero
  value \<open>v\<close> at \<open>(r, c)\<close>, and the layout gives the cells of ship \<open>v\<close>) is a sunk exactly
  when the number of the ship's cells with a recorded outcome in the firing side's Shot
  Record, plus one, reaches the number of the ship's cells. On a sunk every cell of the
  ship is recorded as sunk and the other keys keep their outcome; otherwise the result is
  a hit and only the fired cell is recorded, as \<open>hit\<close>.
\<close>
theorem fire_ship_hit_or_sunk:
  assumes "fire_game g sl r c = Inr (Shot g' res)"
      and "read_cell (board (side_of g (opponent sl))) r c = Inr (Some v)" and "v \<noteq> 0"
      and "ship_cells (ships (side_of g (opponent sl))) v = Inr shipCells"
  shows "(resultType res = Sunk \<longleftrightarrow>
            length shipCells \<le>
              length (filter (\<lambda>k. map_of (shotsFired (side_of g sl)) k \<noteq> None) shipCells) + 1) \<and>
         (resultType res = Sunk \<longrightarrow>
            affectedCells res = shipCells \<and>
            (\<forall>k. map_of (shotsFired (side_of g' sl)) k =
                  (if k \<in> set shipCells then Some Sunk else map_of (shotsFired (side_of g sl)) k))) \<and>
         (resultType res \<noteq> Sunk \<longrightarrow>
            resultType res = Hit \<and> affectedCells res = [(r, c)] \<and>
            shotsFired (side_of g' sl) = shotsFired (side_of g sl) @ [((r, c), Hit)])"
proof -
  from assms(1) obtain out cells msg where
        nf: "\<not> fired (shotsFired (side_of g sl)) (r, c)"
    and rs: "resolve g sl r c = Inr (out, cells, msg)"
    and o: "resultType res = out" and a: "affectedCells res = cells"
    and sh: "shotsFired (side_of g' sl) = record_shots (shotsFired (side_of g sl)) cells out"
    by (rule fire_game_Shot)
  from assms(2,3) rs obtain cs where "ship_cells (ships (side_of g (opponent sl))) v = Inr cs"
    and o2: "out = (if length cs \<le> prevHits (shotsFired (side_of g sl)) cs + 1 then Sunk else Hit)"
    and c2: "cells = (if out = Sunk then cs else [(r, c)])"
    by (rule resolve_ship)
  with assms(4) have cs: "cs = shipCells" by simp
  have ph: "prevHits (shotsFired (side_of g sl)) shipCells =
        length (filter (\<lambda>k. map_of (shotsFired (side_of g sl)) k \<noteq> None) shipCells)"
    by (simp add: prevHits_def fired_def [abs_def])
  show ?thesis
  proof (cases "out = Sunk")
    case True
    then show ?thesis using o a o2 c2 cs ph sh
      by (auto simp: map_of_record_shots split: if_splits)
  next
    case False
    then show ?thesis using o a o2 c2 cs ph sh nf
      by (auto simp: record_shots_single split: if_splits)
  qed
qed

text \<open>
  C2, at a concrete input: the first side has hit cell \<open>(0, 0)\<close> of the two-cell ship
  and fires at \<open>(0, 1)\<close>; the result is a sunk and both cells are recorded as sunk.
\<close>

theorem fire_ship_hit_or_sunk_witness:
  "read_cell (board (side_of (fire_all (battle_of pair_board pair_ships) [(P1, 0, 0)]) (opponent P1))) 0 1
     = Inr (Some 1) \<and>
   ship_cells (ships (side_of (fire_all (battle_of pair_board pair_ships) [(P1, 0, 0)]) (opponent P1))) 1
     = Inr [(0, 0), (0, 1)] \<and>
   shotsFired (side_of (fire_all (battle_of pair_board pair_ships) [(P1, 0, 0)]) P1) = [((0, 0), Hit)] \<and>
   shot_type (fire_game (fire_all (battle_of pair_board pair_ships) [(P1, 0, 0)]) P1 0 1) = Some Sunk \<and>
   shot_record P1 (fire_game (fire_all (battle_of pair_board pair_ships) [(P1, 0, 0)]) P1 0 1)
     = Some [((0, 0), Sunk), ((0, 1), Sunk)]"
proof -
  let ?g = "fire_all (battle_of pair_board pair_ships) [(P1, 0, 0)]"
  have a: "read_cell (board (side_of ?g (opponent P1))) 0 1 = Inr (Some 1)" by code_simp
  have b: "(1::int) \<noteq> 0" by simp
  have c: "ship_cells (ships (side_of ?g (opponent P1))) 1 = Inr [(0, 0), (0, 1)]" by code_simp
  have h: "shotsFired (side_of ?g P1) = [((0, 0), Hit)]" by code_simp
  have r: "shot_record P1 (fire_game ?g P1 0 1) = Some [((0, 0), Sunk), ((0, 1), Sunk)]"
    by code_simp
  then have "shot_of (fire_game ?g P1 0 1) \<noteq> None" by (auto simp: shot_record_def)
  then obtain g' res where d: "fire_game ?g P1 0 1 = Inr (Shot g' res)" by (rule shot_ofE)
  from fire_ship_hit_or_sunk [OF d a b c] h have "resultType res = Sunk" by simp
  with d have "shot_type (fire_game ?g P1 0 1) = Some Sunk" by (simp add: shot_type_def)
  with a c h r show ?thesis by simp
qed

text \<open>
  C3. After a resolved shot of a session with \<open>totalCells = 20\<close>, the phase is
  \<open>finished\<close> with the firing side as winner if and only if the firing side's Shot Record
  holds at least 20 outcomes \<open>hit\<close> or \<open>sunk\<close>; below 20, phase and winner are as before.
\<close>
theorem fire_win_check:
  assumes "fire_game g sl r c = Inr (Shot g' res)" and "totalCells g = 20"
  shows "(phase g' = Finished \<and> winner g' = Some sl \<longleftrightarrow>
            20 \<le> totalHits (shotsFired (side_of g' sl))) \<and>
         (totalHits (shotsFired (side_of g' sl)) < 20 \<longrightarrow>
            phase g' = phase g \<and> winner g' = winner g)"
proof -
  from assms(1) have "phase g = Battle"
    and "phase g' = (if totalCells g \<le> totalHits (shotsFired (side_of g' sl)) then Finished else Battle)"
    and "winner g' = (if totalCells g \<le> totalHits (shotsFired (side_of g' sl)) then Some sl else winner g)"
    by (auto elim: fire_game_Shot)
  then show ?thesis using assms(2) by auto
qed

text \<open>
  C3, at a concrete input: with nineteen ship cells of the fleet hit, the shot at the
  twentieth finishes the session with the first side as winner.
\<close>

theorem fire_win_check_witness:
  "totalCells (fire_all (battle_of fleet_board fleet_ships) (first_hits 19)) = 20 \<and>
   totalHits (shotsFired (side_of (fire_all (battle_of fleet_board fleet_ships) (first_hits 19)) P1)) = 19 \<and>
   shot_phase (fire_game (fire_all (battle_of fleet_board fleet_ships) (first_hits 19)) P1 1 9) = Some Finished \<and>
   shot_winner (fire_game (fire_all (battle_of fleet_board fleet_ships) (first_hits 19)) P1 1 9) = Some (Some P1)"
proof -
  let ?g = "fire_all (battle_of fleet_board fleet_ships) (first_hits 19)"
  have a: "totalCells ?g = 20" by code_simp
  have b: "totalHits (shotsFired (side_of ?g P1)) = 19" by code_simp
  have "map_option totalHits (shot_record P1 (fire_game ?g P1 1 9)) = Some 20" by code_simp
  then obtain g' res where d: "fire_game ?g P1 1 9 = Inr (Shot g' res)"
      and t: "totalHits (shotsFired (side_of g' P1)) = 20"
    by (cases "fire_game ?g P1 1 9" rule: shot_of.cases) (auto simp: shot_record_def)
  from fire_win_check [OF d a] t have "phase g' = Finished \<and> winner g' = Some P1" by simp
  with d have "shot_phase (fire_game ?g P1 1 9) = Some Finished"
      and "shot_winner (fire_game ?g P1 1 9) = Some (Some P1)"
    by (simp_all add: shot_phase_def shot_winner_def)
  with a b show ?thesis by simp
qed

text \<open>
  C4. In a session in phase \<open>battle\<close>, a fire request of the side whose turn it is at a
  coordinate that is already a key of its Shot Record leaves the whole server state as it
  was, the session with it, and emits nothing.
\<close>
theorem refire_is_noop:
  assumes "bound (sockets s i) = Some (gameId, sl)" and "games s gameId = Some g"
      and "phase g = Battle" and "turn g = sl"
      and "map_of (shotsFired (side_of g sl)) (r, c) \<noteq> None"
  shows "fire s i r c = Inr (s, [])"
  using assms by (simp add: fire_def fire_game_def fired_def)

text \<open>
  C4, at a concrete input: \<open>a\<close> has sunk the ship at \<open>(0, 0)\<close>, keeps the turn and fires
  at \<open>(0, 0)\<close> again.
\<close>

theorem refire_is_noop_witness:
  "bound (sockets (state_after (start_events @ [Fire ''a'' 0 0])) ''a'') = Some (''a_b'', P1) \<and>
   map_option phase (games (state_after (start_events @ [Fire ''a'' 0 0])) ''a_b'') = Some Battle \<and>
   map_option turn (games (state_after (start_events @ [Fire ''a'' 0 0])) ''a_b'') = Some P1 \<and>
   map_option (\<lambda>g. map_of (shotsFired (side_of g P1)) (0, 0))
     (games (state_after (start_events @ [Fire ''a'' 0 0])) ''a_b'') = Some (Some Sunk) \<and>
   fire (state_after (start_events @ [Fire ''a'' 0 0])) ''a'' 0 0
     = Inr (state_after (start_events @ [Fire ''a'' 0 0]), [])"
proof -
  let ?s = "state_after (start_events @ [Fire ''a'' 0 0])"
  have a: "bound (sockets ?s ''a'') = Some (''a_b'', P1)" by code_simp
  have p: "map_option phase (games ?s ''a_b'') = Some Battle" by code_simp
  have t: "map_option turn (games ?s ''a_b'') = Some P1" by code_simp
  have k: "map_option (\<lambda>g. map_of (shotsFired (side_of g P1)) (0, 0)) (games ?s ''a_b'')
             = Some (Some Sunk)" by code_simp
  from p obtain g where g: "games ?s ''a_b'' = Some g" by auto
  from g p have b: "phase g = Battle" by simp
  from g t have c: "turn g = P1" by simp
  from g k have d: "map_of (shotsFired (side_of g P1)) (0, 0) \<noteq> None" by simp
  from refire_is_noop [OF a g b c d] a p t k show ?thesis by simp
qed

section \<open>Phases\<close>

text \<open>
  C5. The phase does not only move forward: \<open>player_ready\<close> has no guard on the phase.
  After both sides are ready and \<open>a\<close> disconnects the session is \<open>finished\<close>; a further
  \<open>player_ready\<close> of \<open>b\<close> finds the opposite side ready and sets the phase back to
  \<open>battle\<close>. So it does after the twenty hits by which \<open>a\<close> has won.
\<close>

theorem player_ready_reopens_finished:
  "phase_after (start_events @ [Disconnect ''a'']) = Some Finished \<and>
   phase_after (start_events @ [Disconnect ''a'', Player_ready ''b'' fleet_board fleet_ships])
     = Some Battle \<and>
   phase_after (start_events @ twenty_hits) = Some Finished \<and>
   phase_after (start_events @ twenty_hits @ [Player_ready ''b'' fleet_board fleet_ships])
     = Some Battle"
  by code_simp

section \<open>Matchmaking\<close>

text \<open>
  C6. After \<open>join_queue\<close> the waiting slot is empty or holds the joining connection,
  one participant at most. When a participant with another connection id was waiting, the
  slot is cleared and the registry gets, under the id made of both connection ids, a
  session in phase \<open>placement\<close> with the waiting participant as \<open>p1\<close> and the new arrival
  as \<open>p2\<close>, both sockets bound to it with these slots. In every other case no session is
  created: the registry is unchanged and the joining connection waits.
\<close>

theorem join_queue_pairing:
  assumes "join_queue s i nm = (s', out)"
  shows "(waitingPlayer s' = None \<or> waitingPlayer s' = Some \<lparr>pid = i, pname = nm\<rparr>) \<and>
         (\<forall>w. waitingPlayer s = Some w \<and> pid w \<noteq> i \<longrightarrow>
            waitingPlayer s' = None \<and>
            (\<exists>g. games s' = (games s)(pid w @ ''_'' @ i \<mapsto> g) \<and>
                 sid (p1 g) = pid w \<and> name (p1 g) = pname w \<and>
                 sid (p2 g) = i \<and> name (p2 g) = nm \<and>
                 phase g = Placement \<and> turn g = P1) \<and>
            bound (sockets s' (pid w)) = Some (pid w @ ''_'' @ i, P1) \<and>
            bound (sockets s' i) = Some (pid w @ ''_'' @ i, P2)) \<and>
         (\<not> (\<exists>w. waitingPlayer s = Some w \<and> pid w \<noteq> i) \<longrightarrow>
            waitingPlayer s' = Some \<lparr>pid = i, pname = nm\<rparr> \<and> games s' = games s)"
  using assms
  by (auto simp: join_queue_def createGame_def new_game_def new_side_def game_id_def
        bind_socket_def Let_def split: option.splits if_splits)

text \<open>
  C6, at a concrete input: \<open>a\<close> joins the empty queue, then \<open>b\<close> joins.
\<close>

theorem join_queue_pairing_witness:
  "waitingPlayer (fst (join_queue init ''a'' ''A'')) = Some alice \<and>
   waitingPlayer (fst (join_queue (fst (join_queue init ''a'' ''A'')) ''b'' ''B'')) = None \<and>
   map_option (\<lambda>g. (sid (p1 g), sid (p2 g)))
     (games (fst (join_queue (fst (join_queue init ''a'' ''A'')) ''b'' ''B'')) ''a_b'')
     = Some (''a'', ''b'') \<and>
   bound (sockets (fst (join_queue (fst (join_queue init ''a'' ''A'')) ''b'' ''B'')) ''a'')
     = Some (''a_b'', P1) \<and>
   bound (sockets (fst (join_queue (fst (join_queue init ''a'' ''A'')) ''b'' ''B'')) ''b'')
     = Some (''a_b'', P2)"
proof -
  let ?s = "fst (join_queue init ''a'' ''A'')"
  let ?s' = "fst (join_queue ?s ''b'' ''B'')"
  have w: "waitingPlayer ?s = Some alice" by code_simp
  have e: "join_queue ?s ''b'' ''B'' = (?s', snd (join_queue ?s ''b'' ''B''))" by simp
  have "waitingPlayer ?s = Some alice \<and> pid alice \<noteq> ''b''" using w by (simp add: alice_def)
  with join_queue_pairing [OF e]
  have "waitingPlayer ?s' = None \<and>
        (\<exists>g. games ?s' = (games ?s)(pid alice @ ''_'' @ ''b'' \<mapsto> g) \<and>
             sid (p1 g) = pid alice \<and> name (p1 g) = pname alice \<and>
             sid (p2 g) = ''b'' \<and> name (p2 g) = ''B'' \<and> phase g = Placement \<and> turn g = P1) \<and>
        bound (sockets ?s' (pid alice)) = Some (pid alice @ ''_'' @ ''b'', P1) \<and>
        bound (sockets ?s' ''b'') = Some (pid alice @ ''_'' @ ''b'', P2)"
    by blast
  then show ?thesis using w by (auto simp: alice_def)
qed

section \<open>The Event Log\<close>

text \<open>
  C7. The log exceeds 50 entries: the victory entry is pushed after the truncation. The
  battle start, thirty misses and nineteen hits fill the log to 50 entries; the winning
  twentieth hit leaves 51. The battle start entry is pushed with no truncation at all:
  fifty further \<open>player_ready\<close> requests of \<open>b\<close> leave 51 entries as well.
\<close>

theorem victory_entry_exceeds_cap:
  "log_length_after (start_events @ thirty_misses @ butlast twenty_hits) = Some 50 \<and>
   log_length_after (start_events @ thirty_misses @ twenty_hits) = Some 51 \<and>
   log_length_after (start_events @ replicate 50 (Player_ready ''b'' fleet_board fleet_ships))
     = Some 51"
  by code_simp

section \<open>Cleanup\<close>

text \<open>
  C8, as stated, fails at the winning shot: the twentieth hit takes the phase from
  \<open>battle\<close> to \<open>finished\<close> with \<open>a\<close> as winner, and no timer is pending.
\<close>

theorem winning_shot_schedules_nothing:
  "phase_after (start_events @ butlast twenty_hits) = Some Battle \<and>
   phase_after (start_events @ twenty_hits) = Some Finished \<and>
   map_option winner (session_after (start_events @ twenty_hits)) = Some (Some P1) \<and>
   timers_after (start_events @ twenty_hits) = Some []"
  by code_simp

text \<open>
  C8, amended. When a connection bound to a registered session disconnects, the removal
  of that session is scheduled 60000 milliseconds later and the session is in phase
  \<open>finished\<close>, whether this disconnection finished it or it was finished before; the
  timer's callback removes the session from the registry.
\<close>

theorem disconnect_schedules_cleanup:
  assumes "bound (sockets s i) = Some (gameId, sl)" and "games s gameId = Some g"
      and "disconnect s i = (s', out)"
  shows "timers s' = timers s @ [(60000, gameId)] \<and>
         (\<exists>g'. games s' gameId = Some g' \<and> phase g' = Finished) \<and>
         games (timeout s' gameId) gameId = None"
  using assms
  by (auto simp: disconnect_def timeout_def Let_def split: option.splits if_splits)

text \<open>
  C8 amended, at a concrete input: \<open>a\<close> disconnects from the battle.
\<close>

theorem disconnect_schedules_cleanup_witness:
  "bound (sockets (state_after start_events) ''a'') = Some (''a_b'', P1) \<and>
   map_option phase (games (state_after start_events) ''a_b'') = Some Battle \<and>
   timers (state_after start_events) = [] \<and>
   timers (fst (disconnect (state_after start_events) ''a'')) = [(60000, ''a_b'')] \<and>
   map_option phase (games (fst (disconnect (state_after start_events) ''a'')) ''a_b'')
     = Some Finished"
proof -
  let ?s = "state_after start_events"
  have a: "bound (sockets ?s ''a'') = Some (''a_b'', P1)" by code_simp
  have p: "map_option phase (games ?s ''a_b'') = Some Battle" by code_simp
  have t: "timers ?s = []" by code_simp
  from p obtain g where g: "games ?s ''a_b'' = Some g" by auto
  have e: "disconnect ?s ''a'' = (fst (disconnect ?s ''a''), snd (disconnect ?s ''a''))" by simp
  from disconnect_schedules_cleanup [OF a g e] a p t show ?thesis by auto
qed

section \<open>Requests outside the board\<close>

text \<open>
  C9. The read of the opponent's board is not guarded: in the battle of the two fleets on
  boards of ten rows and ten columns, a fire request of \<open>a\<close> at row \<open>10\<close> or at row \<open>-1\<close>
  throws a TypeError, and one at column \<open>10\<close> of row \<open>0\<close> is resolved and recorded as a
  miss.
\<close>

theorem fire_outside_board_throws:
  "phase_after start_events = Some Battle \<and>
   map_option (\<lambda>g. map_option length (board (p2 g))) (session_after start_events) = Some (Some 10) \<and>
   error_after (start_events @ [Fire ''a'' 10 0]) = Some TypeError \<and>
   error_after (start_events @ [Fire ''a'' (- 1) 0]) = Some TypeError \<and>
   map_option (shotsFired \<circ> p1) (session_after (start_events @ [Fire ''a'' 0 10]))
     = Some [((0, 10), Miss)]"
  by code_simp

section \<open>One key per shot\<close>

text \<open>
  C10, as stated, fails where the layout does not agree with the board. With the layout
  giving ship \<open>1\<close> no cells, the shot at its board cell is a sunk that records no key at
  all. With the layout giving ship \<open>1\<close> the cells \<open>(0, 0)\<close> and \<open>(0, 1)\<close> and the board
  holding it at \<open>(0, 0)\<close> only, a miss at \<open>(0, 1)\<close> followed by the shot at \<open>(0, 0)\<close> is
  a sunk that overwrites the miss: the tally of the first side goes from 0 to 2.
\<close>

theorem sunk_record_counterexample:
  "shot_type (fire_game (battle_of [[1]] [1 \<mapsto> []]) P1 0 0) = Some Sunk \<and>
   shot_record P1 (fire_game (battle_of [[1]] [1 \<mapsto> []]) P1 0 0) = Some [] \<and>
   shotsFired (side_of (fire_all (battle_of [[1, 0]] [1 \<mapsto> [(0, 0), (0, 1)]])
                 [(P1, 0, 1), (P2, 0, 1)]) P1) = [((0, 1), Miss)] \<and>
   shot_type (fire_game (fire_all (battle_of [[1, 0]] [1 \<mapsto> [(0, 0), (0, 1)]])
                 [(P1, 0, 1), (P2, 0, 1)]) P1 0 0) = Some Sunk \<and>
   shot_record P1 (fire_game (fire_all (battle_of [[1, 0]] [1 \<mapsto> [(0, 0), (0, 1)]])
                 [(P1, 0, 1), (P2, 0, 1)]) P1 0 0) = Some [((0, 1), Sunk), ((0, 0), Sunk)]"
  by code_simp

text \<open>
  C10, amended. A resolved miss or hit appends the fired coordinate, and nothing else, to
  the firing side's Shot Record: the tally of \<open>hit\<close> and \<open>sunk\<close> outcomes is unchanged by a
  miss and grows by one on a hit. A resolved sunk adds the fired coordinate as the only new
  key and raises the tally by exactly one, provided the struck ship's cell list contains
  the fired coordinate and none of its cells carries a recorded \<open>miss\<close>. The tally never
  decreases.
\<close>
theorem fire_records_one_key:
  assumes "fire_game g sl r c = Inr (Shot g' res)"
  shows "(resultType res = Miss \<longrightarrow>
            shotsFired (side_of g' sl) = shotsFired (side_of g sl) @ [((r, c), Miss)] \<and>
            totalHits (shotsFired (side_of g' sl)) = totalHits (shotsFired (side_of g sl))) \<and>
         (resultType res = Hit \<longrightarrow>
            shotsFired (side_of g' sl) = shotsFired (side_of g sl) @ [((r, c), Hit)] \<and>
            totalHits (shotsFired (side_of g' sl)) = totalHits (shotsFired (side_of g sl)) + 1) \<and>
         (resultType res = Sunk \<and> (r, c) \<in> set (affectedCells res) \<and>
          (\<forall>k\<in>set (affectedCells res). map_of (shotsFired (side_of g sl)) k \<noteq> Some Miss) \<longrightarrow>
            map fst (shotsFired (side_of g' sl)) = map fst (shotsFired (side_of g sl)) @ [(r, c)] \<and>
            totalHits (shotsFired (side_of g' sl)) = totalHits (shotsFired (side_of g sl)) + 1) \<and>
         totalHits (shotsFired (side_of g sl)) \<le> totalHits (shotsFired (side_of g' sl))"
proof -
  let ?sh = "shotsFired (side_of g sl)"
  from assms obtain out cells msg where
        nf: "\<not> fired ?sh (r, c)"
    and rs: "resolve g sl r c = Inr (out, cells, msg)"
    and o: "resultType res = out" and a: "affectedCells res = cells"
    and sh: "shotsFired (side_of g' sl) = record_shots ?sh cells out"
    by (rule fire_game_Shot)
  show ?thesis
  proof (cases "out = Sunk")
    case False
    with rs have "cells = [(r, c)]" by (rule resolve_not_Sunk)
    with nf sh have "shotsFired (side_of g' sl) = ?sh @ [((r, c), out)]"
      by (simp add: record_shots_single)
    with False o show ?thesis by (cases out) (simp_all add: totalHits_append)
  next
    case True
    have mono: "totalHits ?sh \<le> totalHits (shotsFired (side_of g' sl))"
      unfolding sh True by (rule totalHits_record_Sunk_mono)
    have "map fst (shotsFired (side_of g' sl)) = map fst ?sh @ [(r, c)] \<and>
          totalHits (shotsFired (side_of g' sl)) = totalHits ?sh + 1"
      if x: "(r, c) \<in> set cells" and nm: "\<forall>k\<in>set cells. map_of ?sh k \<noteq> Some Miss"
    proof -
      from rs True have "resolve g sl r c = Inr (Sunk, cells, msg)" by simp
      then have "length cells \<le> prevHits ?sh cells + 1"
        by (rule resolve_Sunk_condition)
      with x nf have "\<forall>k\<in>set cells. k \<noteq> (r, c) \<longrightarrow> fired ?sh k"
        by (rule prevHits_all_others)
      with nm have "\<forall>k\<in>set cells. k \<noteq> (r, c) \<longrightarrow> (\<exists>v. map_of ?sh k = Some v \<and> v \<noteq> Miss)"
        by (auto simp: fired_def)
      moreover from nf have "map_of ?sh (r, c) = None" by (simp add: fired_def)
      ultimately show ?thesis unfolding sh True using x by (intro record_shots_sunk_new)
    qed
    with True o a mono show ?thesis by simp
  qed
qed

text \<open>
  C10 amended, at a concrete input: the first side has hit cell \<open>(0, 0)\<close> of the
  two-cell ship and sinks it at \<open>(0, 1)\<close>; the only new key is \<open>(0, 1)\<close> and the tally
  goes from 1 to 2.
\<close>

theorem fire_records_one_key_witness:
  "shotsFired (side_of (fire_all (battle_of pair_board pair_ships) [(P1, 0, 0)]) P1) = [((0, 0), Hit)] \<and>
   shot_type (fire_game (fire_all (battle_of pair_board pair_ships) [(P1, 0, 0)]) P1 0 1) = Some Sunk \<and>
   map_option (map fst)
     (shot_record P1 (fire_game (fire_all (battle_of pair_board pair_ships) [(P1, 0, 0)]) P1 0 1))
     = Some [(0, 0), (0, 1)] \<and>
   map_option totalHits
     (shot_record P1 (fire_game (fire_all (battle_of pair_board pair_ships) [(P1, 0, 0)]) P1 0 1))
     = Some 2"
proof -
  let ?g = "fire_all (battle_of pair_board pair_ships) [(P1, 0, 0)]"
  have h: "shotsFired (side_of ?g P1) = [((0, 0), Hit)]" by code_simp
  have "map_option (\<lambda>(g', res). (resultType res, affectedCells res)) (shot_of (fire_game ?g P1 0 1))
          = Some (Sunk, [(0, 0), (0, 1)])" by code_simp
  then obtain g' res where d: "fire_game ?g P1 0 1 = Inr (Shot g' res)"
      and t: "resultType res = Sunk" and c: "affectedCells res = [(0, 0), (0, 1)]"
    by (cases "fire_game ?g P1 0 1" rule: shot_of.cases) auto
  from fire_records_one_key [OF d] t c h
  have "map fst (shotsFired (side_of g' P1)) = [(0, 0), (0, 1)] \<and>
        totalHits (shotsFired (side_of g' P1)) = 2"
    by (simp add: totalHits_def)
  with d t h show ?thesis by (simp add: shot_type_def shot_record_def)
qed

end
